theory Spec2Isabelle
  imports Complex_Main
begin

section \<open>Data model of the backtester\<close>

text \<open>
  The development embeds \<^verbatim>\<open>backtester.py\<close> (strategy V2.2, market structure shift
  with a session filter). Prices and balances are Python floats in the source; they are
  taken here as exact real numbers, so every arithmetic identity below is one of exact
  arithmetic and rounding is not modelled. A timestamp is the number of microseconds
  since the epoch, the resolution at which \<^verbatim>\<open>Timestamp.time()\<close> is compared with
  \<^verbatim>\<open>datetime.time(8, 0)\<close> and \<^verbatim>\<open>datetime.time(22, 0)\<close>.

  A data frame is the list of its rows, row \<open>k\<close> carrying the index label \<open>k\<close>
  (the \<^verbatim>\<open>RangeIndex\<close> that \<^verbatim>\<open>read_csv\<close> gives). A frame filtered by a boolean mask keeps
  the labels of the rows it retains, so it is a list of pairs of a label and a row.
  The rolling window functions store \<^verbatim>\<open>NaN\<close> where the window is incomplete, \<^verbatim>\<open>1.0\<close> where
  the predicate holds and \<^verbatim>\<open>0.0\<close> where it does not: a flag is a \<open>bool option\<close>,
  \<open>None\<close> standing for \<^verbatim>\<open>NaN\<close>. The columns \<^verbatim>\<open>ema_fast\<close> and \<^verbatim>\<open>ema_slow\<close> are read
  by \<^verbatim>\<open>run_backtest\<close> as the frame carries them, and so they are here.
\<close>

record candle =
  timestamp :: nat
  high :: real
  low :: real
  close :: real
  ema_fast :: real
  ema_slow :: real
  swing_high :: "bool option"
  swing_low :: "bool option"

datatype trade_type = Buy | Sell

datatype outcome = Win | Loss

text \<open>The trigger level is the text \<^verbatim>\<open>Break of LH at x\<close> or \<^verbatim>\<open>Break of HL at x\<close>; the
  number formatting is left out and the level itself is kept.\<close>

datatype trigger = Break_of_LH real | Break_of_HL real

record trade =
  entry_time :: nat
  exit_time :: nat
  trade_type :: trade_type
  entry_price :: real
  exit_price :: real
  stop_loss :: real
  take_profit :: real
  position_size :: real
  pnl_currency :: real
  account_balance :: real
  result :: outcome
  setup_type :: string
  trigger_level :: trigger

record account =
  balance :: real
  initial_balance :: real

text \<open>The local variables of \<^verbatim>\<open>run_backtest\<close> that live across iterations of its
  \<^verbatim>\<open>while\<close> loop: the cursor \<^verbatim>\<open>i\<close>, \<^verbatim>\<open>trade_is_open\<close>, the account (field \<open>acct\<close>), and
  the list \<^verbatim>\<open>logger.trades\<close>.\<close>

record engine =
  cursor :: nat
  trade_is_open :: bool
  acct :: account
  trades :: "trade list"

section \<open>Account\<close>

definition Account :: "real \<Rightarrow> account" where
  "Account ib = \<lparr>balance = ib, initial_balance = ib\<rparr>"

definition get_position_size :: "account \<Rightarrow> real \<Rightarrow> real \<Rightarrow> real \<Rightarrow> real" where
  "get_position_size self risk_percent entry sl_price =
     (let sl_pips = \<bar>entry - sl_price\<bar> in
      if sl_pips = 0 then 0
      else (let risk_amount = balance self * (risk_percent / 100)
            in risk_amount / sl_pips))"

definition update_balance :: "account \<Rightarrow> real \<Rightarrow> account" where
  "update_balance self pnl = self\<lparr>balance := balance self + pnl\<rparr>"

section \<open>Trade logger\<close>

definition log_trade ::
  "trade list \<Rightarrow> nat \<Rightarrow> nat \<Rightarrow> trade_type \<Rightarrow> real \<Rightarrow> real \<Rightarrow> real \<Rightarrow> real \<Rightarrow> real \<Rightarrow> real
     \<Rightarrow> real \<Rightarrow> outcome \<Rightarrow> string \<Rightarrow> trigger \<Rightarrow> trade list" where
  "log_trade self et xt tt ep xp sl tp ps pnl ab res sty trig =
     self @ [\<lparr>entry_time = et, exit_time = xt, trade_type = tt, entry_price = ep,
              exit_price = xp, stop_loss = sl, take_profit = tp, position_size = ps,
              pnl_currency = pnl, account_balance = ab, result = res, setup_type = sty,
              trigger_level = trig\<rparr>]"

section \<open>Swing points\<close>

text \<open>\<^verbatim>\<open>rolling(window=2*lookback+1, center=True)\<close>: the window of row \<open>k\<close> is the rows
  \<open>k - lookback .. k + lookback\<close>; where it does not fit in the series the result is
  \<^verbatim>\<open>NaN\<close>.\<close>

definition rolling_center :: "nat \<Rightarrow> real list \<Rightarrow> nat \<Rightarrow> real list option" where
  "rolling_center lookback xs k =
     (if lookback \<le> k \<and> k + lookback < length xs
      then Some (take (2 * lookback + 1) (drop (k - lookback) xs))
      else None)"

definition find_swing_points :: "candle list \<Rightarrow> nat \<Rightarrow> candle list" where
  "find_swing_points df lookback =
     map (\<lambda>k. (df ! k)
            \<lparr>swing_high := map_option (\<lambda>x. x ! lookback = Max (set x))
                              (rolling_center lookback (map high df) k),
             swing_low := map_option (\<lambda>x. x ! lookback = Min (set x))
                              (rolling_center lookback (map low df) k)\<rparr>)
         [0..<length df]"

section \<open>Signal detection\<close>

definition london_open :: nat where
  "london_open = 8 * 3600 * 1000000"

definition ny_close :: nat where
  "ny_close = 22 * 3600 * 1000000"

definition time_of_day :: "nat \<Rightarrow> nat" where
  "time_of_day ts = ts mod (24 * 3600 * 1000000)"

definition in_session :: "candle \<Rightarrow> bool" where
  "in_session c =
     (london_open \<le> time_of_day (timestamp c) \<and> time_of_day (timestamp c) \<le> ny_close)"

definition swing_highs :: "candle list \<Rightarrow> (nat \<times> candle) list" where
  "swing_highs df = filter (\<lambda>(k, c). swing_high c = Some True) (enumerate 0 df)"

definition swing_lows :: "candle list \<Rightarrow> (nat \<times> candle) list" where
  "swing_lows df = filter (\<lambda>(k, c). swing_low c = Some True) (enumerate 0 df)"

definition index_before :: "nat \<Rightarrow> (nat \<times> candle) list \<Rightarrow> (nat \<times> candle) list" where
  "index_before i rows = filter (\<lambda>(k, c). k < i) rows"

text \<open>\<^verbatim>\<open>rows.iloc[-1]\<close>, guarded in the source by \<^verbatim>\<open>not rows.empty\<close>.\<close>

definition iloc_last :: "(nat \<times> candle) list \<Rightarrow> (nat \<times> candle) option" where
  "iloc_last rows = (if rows = [] then None else Some (last rows))"

definition last_lower_high :: "candle list \<Rightarrow> nat \<Rightarrow> (nat \<times> candle) option" where
  "last_lower_high df i =
     (let relevant_swing_highs = index_before i (swing_highs df);
          potential_lower_highs =
            filter (\<lambda>(k, c). ema_fast c < ema_slow c) relevant_swing_highs
      in iloc_last potential_lower_highs)"

definition recent_lows_last :: "candle list \<Rightarrow> nat \<Rightarrow> (nat \<times> candle) option" where
  "recent_lows_last df i = (let recent_lows = index_before i (swing_lows df) in iloc_last recent_lows)"

definition last_higher_low :: "candle list \<Rightarrow> nat \<Rightarrow> (nat \<times> candle) option" where
  "last_higher_low df i =
     (let relevant_swing_lows = index_before i (swing_lows df);
          potential_higher_lows =
            filter (\<lambda>(k, c). ema_fast c > ema_slow c) relevant_swing_lows
      in iloc_last potential_higher_lows)"

definition recent_highs_last :: "candle list \<Rightarrow> nat \<Rightarrow> (nat \<times> candle) option" where
  "recent_highs_last df i = (let recent_highs = index_before i (swing_highs df) in iloc_last recent_highs)"

text \<open>Lines 76 to 110 of \<^verbatim>\<open>run_backtest\<close>: the trend at the cursor, the break of the last
  counter-trend swing, and the stop at the last swing on the other side. The result is
  \<open>None\<close> where the source leaves \<^verbatim>\<open>trade_triggered\<close> false, and otherwise the values of
  \<^verbatim>\<open>trade_type\<close>, \<^verbatim>\<open>entry_price\<close>, \<^verbatim>\<open>stop_loss\<close>, \<^verbatim>\<open>setup_type\<close> and \<^verbatim>\<open>trigger_level\<close>.\<close>

definition detect ::
  "candle list \<Rightarrow> nat \<Rightarrow> (trade_type \<times> real \<times> real \<times> string \<times> trigger) option" where
  "detect df i =
     (let current_candle = df ! i in
      if ema_fast current_candle > ema_slow current_candle then
        (case last_lower_high df i of
           None \<Rightarrow> None
         | Some (k, llh) \<Rightarrow>
             if close current_candle > high llh then
               (case recent_lows_last df i of
                  None \<Rightarrow> None
                | Some (m, rl) \<Rightarrow>
                    Some (Buy, close current_candle, low rl, ''MSS - Bullish'',
                          Break_of_LH (high llh)))
             else None)
      else
        (case last_higher_low df i of
           None \<Rightarrow> None
         | Some (k, lhl) \<Rightarrow>
             if close current_candle < low lhl then
               (case recent_highs_last df i of
                  None \<Rightarrow> None
                | Some (m, rh) \<Rightarrow>
                    Some (Sell, close current_candle, high rh, ''MSS - Bearish'',
                          Break_of_HL (low lhl)))
             else None))"

section \<open>Exit resolution\<close>

text \<open>The body of the \<^verbatim>\<open>for j\<close> loop on one future candle: the comparison with the stop
  comes first, the comparison with the target is its \<^verbatim>\<open>elif\<close>.\<close>

definition check_exit :: "trade_type \<Rightarrow> real \<Rightarrow> real \<Rightarrow> candle \<Rightarrow> (outcome \<times> real) option" where
  "check_exit tt sl tp future_candle =
     (if tt = Buy then
        (if low future_candle \<le> sl then Some (Loss, sl)
         else if high future_candle \<ge> tp then Some (Win, tp)
         else None)
      else
        (if high future_candle \<ge> sl then Some (Loss, sl)
         else if low future_candle \<le> tp then Some (Win, tp)
         else None))"

text \<open>\<^verbatim>\<open>for j in range(i + 1, len(df))\<close>, left at the first candle where \<^verbatim>\<open>result\<close> is
  set; \<open>None\<close> when the range is exhausted with \<^verbatim>\<open>result\<close> still unset.\<close>

function exit_scan ::
  "candle list \<Rightarrow> trade_type \<Rightarrow> real \<Rightarrow> real \<Rightarrow> nat \<Rightarrow> (nat \<times> outcome \<times> real) option" where
  "exit_scan df tt sl tp j =
     (if j < length df then
        (case check_exit tt sl tp (df ! j) of
           Some (res, xp) \<Rightarrow> Some (j, res, xp)
         | None \<Rightarrow> exit_scan df tt sl tp (Suc j))
      else None)"
  by pat_completeness auto
termination
  by (relation "measure (\<lambda>(df, tt, sl, tp, j). length df - j)") auto

declare exit_scan.simps [simp del]

section \<open>The main loop\<close>

text \<open>One iteration of \<^verbatim>\<open>while i < len(df)\<close>, for a cursor inside the series. The locals
  \<^verbatim>\<open>entry_price\<close>, \<^verbatim>\<open>stop_loss\<close>, \<^verbatim>\<open>take_profit\<close>, \<^verbatim>\<open>position_size\<close> and \<^verbatim>\<open>pnl_currency\<close> are
  written \<open>entry\<close>, \<open>sl\<close>, \<open>tp\<close>, \<open>ps\<close> and \<open>pnl\<close>, their own names being those of the fields
  of a trade record; the progress bar is left out.\<close>

definition step :: "candle list \<Rightarrow> engine \<Rightarrow> engine" where
  "step df s =
     (let i = cursor s in
      if trade_is_open s then s\<lparr>cursor := i + 1\<rparr>
      else
        (let current_candle = df ! i in
         if \<not> in_session current_candle then s\<lparr>cursor := i + 1\<rparr>
         else
           (case detect df i of
              None \<Rightarrow> s\<lparr>cursor := i + 1\<rparr>
            | Some (tt, entry, sl, sty, trig) \<Rightarrow>
                (let sl_distance = \<bar>entry - sl\<bar> in
                 if sl_distance \<le> 0.0001 then s\<lparr>cursor := i + 1\<rparr>
                 else
                   (let tp = (if tt = Buy then entry + sl_distance * 2
                              else entry - sl_distance * 2);
                        ps = get_position_size (acct s) 1 entry sl
                    in
                      if ps > 0 then
                        (case exit_scan df tt sl tp (i + 1) of
                           Some (j, res, xp) \<Rightarrow>
                             (let pnl = (if tt = Buy then (xp - entry) * ps
                                         else (entry - xp) * ps);
                                  account' = update_balance (acct s) pnl
                              in s\<lparr>cursor := j, trade_is_open := False, acct := account',
                                   trades := log_trade (trades s) (timestamp current_candle)
                                     (timestamp (df ! j)) tt entry xp sl tp ps pnl
                                     (balance account') res sty trig\<rparr>)
                         | None \<Rightarrow> s\<lparr>cursor := length df, trade_is_open := True\<rparr>)
                      else s\<lparr>cursor := i + 1\<rparr>)))))"

text \<open>The exit scan returns an index of the series at or after its start, and the
  verdict of \<open>check_exit\<close> on that candle; no earlier candle of the range gave one.\<close>

lemma exit_scan_Some:
  "exit_scan df tt sl tp j0 = Some (j, res, xp) \<Longrightarrow>
     j0 \<le> j \<and> j < length df \<and> check_exit tt sl tp (df ! j) = Some (res, xp) \<and>
     (\<forall>m. j0 \<le> m \<and> m < j \<longrightarrow> check_exit tt sl tp (df ! m) = None)"
proof (induction df tt sl tp j0 rule: exit_scan.induct)
  case (1 df tt sl tp j0)
  show ?case
  proof (cases "j0 < length df")
    case False
    with "1.prems" show ?thesis by (simp add: exit_scan.simps)
  next
    case inside: True
    show ?thesis
    proof (cases "check_exit tt sl tp (df ! j0)")
      case None
      with inside "1.prems" have rec: "exit_scan df tt sl tp (Suc j0) = Some (j, res, xp)"
        by (simp add: exit_scan.simps [of df tt sl tp j0])
      from "1.IH" [OF inside None rec]
      have ih: "Suc j0 \<le> j" "j < length df" "check_exit tt sl tp (df ! j) = Some (res, xp)"
        "\<forall>m. Suc j0 \<le> m \<and> m < j \<longrightarrow> check_exit tt sl tp (df ! m) = None"
        by simp_all
      have "check_exit tt sl tp (df ! m) = None" if "j0 \<le> m" "m < j" for m
      proof (cases "m = j0")
        case True
        with None show ?thesis by simp
      next
        case False
        with that have "Suc j0 \<le> m" by simp
        with ih(4) that show ?thesis by simp
      qed
      with ih show ?thesis by simp
    next
      case (Some v)
      with inside "1.prems" show ?thesis
        by (cases v) (auto simp: exit_scan.simps [of df tt sl tp j0])
    qed
  qed
qed

lemma exit_scan_None:
  "exit_scan df tt sl tp j0 = None \<Longrightarrow> j0 \<le> m \<Longrightarrow> m < length df \<Longrightarrow>
     check_exit tt sl tp (df ! m) = None"
proof (induction df tt sl tp j0 rule: exit_scan.induct)
  case (1 df tt sl tp j0)
  from "1.prems" have inside: "j0 < length df" by simp
  show ?case
  proof (cases "check_exit tt sl tp (df ! j0)")
    case None
    with inside "1.prems" have rec: "exit_scan df tt sl tp (Suc j0) = None"
      by (simp add: exit_scan.simps [of df tt sl tp j0])
    show ?thesis
    proof (cases "m = j0")
      case True
      with None show ?thesis by simp
    next
      case False
      with "1.prems" have "Suc j0 \<le> m" by simp
      from "1.IH" [OF inside None rec this "1.prems"(3)] show ?thesis .
    qed
  next
    case (Some v)
    with inside "1.prems" show ?thesis
      by (cases v) (simp add: exit_scan.simps [of df tt sl tp j0])
  qed
qed

lemma check_exit_result:
  "check_exit tt sl tp c = Some (res, xp) \<Longrightarrow> (res = Loss \<longrightarrow> xp = sl) \<and> (res = Win \<longrightarrow> xp = tp)"
  by (auto simp: check_exit_def split: if_splits)

lemma exit_scan_NoneI:
  assumes "\<forall>m. j0 \<le> m \<and> m < length df \<longrightarrow> check_exit tt sl tp (df ! m) = None"
  shows "exit_scan df tt sl tp j0 = None"
proof (cases "exit_scan df tt sl tp j0")
  case None
  then show ?thesis .
next
  case (Some ex)
  obtain j res xp where "ex = (j, res, xp)" by (cases ex)
  with Some have "exit_scan df tt sl tp j0 = Some (j, res, xp)" by simp
  from exit_scan_Some [OF this]
  have "j0 \<le> j" "j < length df" "check_exit tt sl tp (df ! j) = Some (res, xp)" by simp_all
  with assms show ?thesis by simp
qed

text \<open>Every iteration moves the cursor forward and never past the end of the series.\<close>

lemma step_cursor:
  assumes "cursor s < length df"
  shows "cursor s < cursor (step df s) \<and> cursor (step df s) \<le> length df"
  using assms
  by (auto simp: step_def Let_def split: option.splits prod.splits dest!: exit_scan_Some)

function loop :: "candle list \<Rightarrow> engine \<Rightarrow> engine" where
  "loop df s = (if cursor s < length df then loop df (step df s) else s)"
  by pat_completeness auto
termination
proof (relation "measure (\<lambda>(df, s). length df - cursor s)")
  show "wf (measure (\<lambda>(df, s). length df - cursor s))" by simp
next
  fix df :: "candle list" and s :: engine
  assume "cursor s < length df"
  from step_cursor [OF this]
  show "((df, step df s), (df, s)) \<in> measure (\<lambda>(df, s). length df - cursor s)"
    by simp arith
qed

declare loop.simps [simp del]

text \<open>\<^verbatim>\<open>run_backtest(df, logger)\<close>: a fresh account of 10000, no open trade, the cursor at
  row 200, and the loop; what the caller has afterwards is the list of trades of the
  logger it passed in.\<close>

definition initial_engine :: "trade list \<Rightarrow> engine" where
  "initial_engine logger_trades =
     \<lparr>cursor = 200, trade_is_open = False, acct = Account 10000, trades = logger_trades\<rparr>"

definition run_backtest :: "candle list \<Rightarrow> trade list \<Rightarrow> trade list" where
  "run_backtest df logger_trades = trades (loop df (initial_engine logger_trades))"

text \<open>The records that one run appends to the logger.\<close>

definition emitted :: "candle list \<Rightarrow> trade list \<Rightarrow> trade list" where
  "emitted df logger_trades = drop (length logger_trades) (run_backtest df logger_trades)"

section \<open>The iterations of the loop, case by case\<close>

text \<open>Names for the expressions of lines 119, 137 and 139 of the source, which \<open>step\<close>
  has inline: the target price, the profit or loss of a closed trade, and the record
  handed to the logger.\<close>

definition target_price :: "trade_type \<Rightarrow> real \<Rightarrow> real \<Rightarrow> real" where
  "target_price tt entry sl =
     (if tt = Buy then entry + \<bar>entry - sl\<bar> * 2 else entry - \<bar>entry - sl\<bar> * 2)"

definition trade_pnl :: "trade_type \<Rightarrow> real \<Rightarrow> real \<Rightarrow> real \<Rightarrow> real" where
  "trade_pnl tt entry xp ps = (if tt = Buy then (xp - entry) * ps else (entry - xp) * ps)"

definition closed_trade ::
  "candle list \<Rightarrow> engine \<Rightarrow> trade_type \<times> real \<times> real \<times> string \<times> trigger
     \<Rightarrow> nat \<times> outcome \<times> real \<Rightarrow> trade" where
  "closed_trade df s su ex =
     (case su of (tt, entry, sl, sty, trig) \<Rightarrow>
      case ex of (j, res, xp) \<Rightarrow>
        \<lparr>entry_time = timestamp (df ! cursor s), exit_time = timestamp (df ! j),
         trade_type = tt, entry_price = entry, exit_price = xp, stop_loss = sl,
         take_profit = target_price tt entry sl,
         position_size = get_position_size (acct s) 1 entry sl,
         pnl_currency = trade_pnl tt entry xp (get_position_size (acct s) 1 entry sl),
         account_balance =
           balance (acct s) + trade_pnl tt entry xp (get_position_size (acct s) 1 entry sl),
         result = res, setup_type = sty, trigger_level = trig\<rparr>)"

text \<open>An iteration either only moves the cursor one row on, or opens a trade that the exit
  scan closes at a row \<open>j\<close>, or opens a trade that no remaining row closes.\<close>

lemma step_cases [consumes 1, case_names skip closed unresolved]:
  assumes "cursor s < length df"
  obtains "step df s = s\<lparr>cursor := cursor s + 1\<rparr>"
  | tt entry sl sty trig j res xp where
      "\<not> trade_is_open s" "in_session (df ! cursor s)"
      "detect df (cursor s) = Some (tt, entry, sl, sty, trig)"
      "\<not> \<bar>entry - sl\<bar> \<le> 0.0001"
      "get_position_size (acct s) 1 entry sl > 0"
      "exit_scan df tt sl (target_price tt entry sl) (cursor s + 1) = Some (j, res, xp)"
      "step df s = s\<lparr>cursor := j, trade_is_open := False,
         acct := update_balance (acct s)
                   (trade_pnl tt entry xp (get_position_size (acct s) 1 entry sl)),
         trades := trades s @ [closed_trade df s (tt, entry, sl, sty, trig) (j, res, xp)]\<rparr>"
  | tt entry sl sty trig where
      "\<not> trade_is_open s" "in_session (df ! cursor s)"
      "detect df (cursor s) = Some (tt, entry, sl, sty, trig)"
      "\<not> \<bar>entry - sl\<bar> \<le> 0.0001"
      "get_position_size (acct s) 1 entry sl > 0"
      "exit_scan df tt sl (target_price tt entry sl) (cursor s + 1) = None"
      "step df s = s\<lparr>cursor := length df, trade_is_open := True\<rparr>"
proof (cases "trade_is_open s \<or> \<not> in_session (df ! cursor s)")
  case True
  then have "step df s = s\<lparr>cursor := cursor s + 1\<rparr>"
    by (auto simp: step_def Let_def)
  then show thesis by (rule that(1))
next
  case gate: False
  show thesis
  proof (cases "detect df (cursor s)")
    case None
    with gate have "step df s = s\<lparr>cursor := cursor s + 1\<rparr>"
      by (simp add: step_def Let_def)
    then show thesis by (rule that(1))
  next
    case (Some su)
    obtain tt entry sl sty trig where su: "su = (tt, entry, sl, sty, trig)"
      by (cases su)
    note det = Some [unfolded su]
    show thesis
    proof (cases "\<bar>entry - sl\<bar> \<le> 0.0001 \<or> \<not> get_position_size (acct s) 1 entry sl > 0")
      case True
      with gate det have "step df s = s\<lparr>cursor := cursor s + 1\<rparr>"
        by (auto simp: step_def Let_def)
      then show thesis by (rule that(1))
    next
      case sized: False
      show thesis
      proof (cases "exit_scan df tt sl (target_price tt entry sl) (cursor s + 1)")
        case None
        with gate det sized
        have "step df s = s\<lparr>cursor := length df, trade_is_open := True\<rparr>"
          by (simp add: step_def Let_def target_price_def)
        with gate det sized None show thesis
          by (intro that(3) [of tt entry sl sty trig]) simp_all
      next
        case (Some ex)
        obtain j res xp where ex: "ex = (j, res, xp)"
          by (cases ex)
        note scan = Some [unfolded ex]
        from gate det sized scan
        have "step df s = s\<lparr>cursor := j, trade_is_open := False,
          acct := update_balance (acct s)
                    (trade_pnl tt entry xp (get_position_size (acct s) 1 entry sl)),
          trades := trades s @ [closed_trade df s (tt, entry, sl, sty, trig) (j, res, xp)]\<rparr>"
          by (simp add: step_def Let_def target_price_def trade_pnl_def closed_trade_def
              log_trade_def update_balance_def)
        with gate det sized scan show thesis
          by (intro that(2) [of tt entry sl sty trig j res xp]) simp_all
      qed
    qed
  qed
qed

text \<open>A property that every iteration preserves holds when the loop has ended.\<close>

lemma loop_invariant:
  "I s \<Longrightarrow> (\<And>s'. I s' \<Longrightarrow> cursor s' < length df \<Longrightarrow> I (step df s')) \<Longrightarrow> I (loop df s)"
proof (induction df s rule: loop.induct)
  case (1 df s)
  show ?case
  proof (cases "cursor s < length df")
    case True
    from "1.prems"(1) True have "I (step df s)" by (rule "1.prems"(2))
    from "1.IH" [OF True this "1.prems"(2)] have "I (loop df (step df s))" by simp
    with True show ?thesis by (simp add: loop.simps [of df s])
  next
    case False
    with "1.prems"(1) show ?thesis by (simp add: loop.simps [of df s])
  qed
qed

lemma loop_cursor: "cursor (loop df s) = max (cursor s) (length df)"
proof (induction df s rule: loop.induct)
  case (1 df s)
  show ?case
  proof (cases "cursor s < length df")
    case True
    from step_cursor [OF True] "1.IH" [OF True] True show ?thesis
      by (simp add: loop.simps [of df s])
  next
    case False
    then show ?thesis by (simp add: loop.simps [of df s])
  qed
qed

section \<open>The records of a run\<close>

text \<open>What holds of every record handed to the logger holds of every record of a run.\<close>

lemma emitted_all:
  assumes closed: "\<And>s tt entry sl sty trig j res xp.
      cursor s < length df \<Longrightarrow> \<not> trade_is_open s \<Longrightarrow> in_session (df ! cursor s) \<Longrightarrow>
      detect df (cursor s) = Some (tt, entry, sl, sty, trig) \<Longrightarrow>
      \<not> \<bar>entry - sl\<bar> \<le> 0.0001 \<Longrightarrow> get_position_size (acct s) 1 entry sl > 0 \<Longrightarrow>
      exit_scan df tt sl (target_price tt entry sl) (cursor s + 1) = Some (j, res, xp) \<Longrightarrow>
      P (closed_trade df s (tt, entry, sl, sty, trig) (j, res, xp))"
  shows "\<forall>r \<in> set (emitted df lg). P r"
proof -
  define n where "n = length lg"
  define I where "I s \<longleftrightarrow> n \<le> length (trades s) \<and> (\<forall>r \<in> set (drop n (trades s)). P r)" for s :: engine
  have "I (initial_engine lg)"
    by (simp add: I_def n_def initial_engine_def)
  moreover have "I (step df s)" if "I s" "cursor s < length df" for s
    using that(2)
  proof (cases rule: step_cases)
    case skip
    with that(1) show ?thesis by (simp add: I_def)
  next
    case (closed tt entry sl sty trig j res xp)
    from closed(1-6) that(2)
    have "P (closed_trade df s (tt, entry, sl, sty, trig) (j, res, xp))"
      by (intro assms)
    with that(1) closed(7) show ?thesis by (auto simp: I_def)
  next
    case (unresolved tt entry sl sty trig)
    with that(1) show ?thesis by (simp add: I_def)
  qed
  ultimately have "I (loop df (initial_engine lg))"
    by (rule loop_invariant)
  then show ?thesis
    by (simp add: I_def n_def emitted_def run_backtest_def)
qed

text \<open>What holds of every record handed to the logger, given the balance before the
  trade, holds along the records of a run, each with the balance its predecessor left.\<close>

lemma loop_ledger:
  assumes closed: "\<And>s tt entry sl sty trig j res xp.
      cursor s < length df \<Longrightarrow> \<not> trade_is_open s \<Longrightarrow> in_session (df ! cursor s) \<Longrightarrow>
      detect df (cursor s) = Some (tt, entry, sl, sty, trig) \<Longrightarrow>
      \<not> \<bar>entry - sl\<bar> \<le> 0.0001 \<Longrightarrow> get_position_size (acct s) 1 entry sl > 0 \<Longrightarrow>
      exit_scan df tt sl (target_price tt entry sl) (cursor s + 1) = Some (j, res, xp) \<Longrightarrow>
      R (balance (acct s)) (closed_trade df s (tt, entry, sl, sty, trig) (j, res, xp))"
  shows "\<exists>new. trades (loop df s) = trades s @ new \<and>
     (\<forall>k < length new.
        R (if k = 0 then balance (acct s) else account_balance (new ! (k - 1))) (new ! k))"
  using closed
proof (induction df s rule: loop.induct)
  case (1 df s)
  show ?case
  proof (cases "cursor s < length df")
    case False
    then have "loop df s = s" by (simp add: loop.simps [of df s])
    then show ?thesis by simp
  next
    case inside: True
    then have unroll: "loop df s = loop df (step df s)" by (simp add: loop.simps [of df s])
    from "1.IH" [OF inside "1.prems"]
    obtain new where new: "trades (loop df (step df s)) = trades (step df s) @ new"
      "\<forall>k < length new.
         R (if k = 0 then balance (acct (step df s)) else account_balance (new ! (k - 1)))
           (new ! k)"
      by blast
    from inside show ?thesis
    proof (cases rule: step_cases)
      case skip
      with new unroll show ?thesis by auto
    next
      case (unresolved tt entry sl sty trig)
      with new unroll show ?thesis by auto
    next
      case (closed tt entry sl sty trig j res xp)
      define ct where "ct = closed_trade df s (tt, entry, sl, sty, trig) (j, res, xp)"
      from closed(1-6) inside have R0: "R (balance (acct s)) ct"
        unfolding ct_def by (intro "1.prems")
      from closed(7) have bal: "balance (acct (step df s)) = account_balance ct"
        by (simp add: ct_def closed_trade_def update_balance_def)
      from closed(7) new(1) unroll have tr: "trades (loop df s) = trades s @ (ct # new)"
        by (simp add: ct_def)
      have "R (if k = 0 then balance (acct s) else account_balance ((ct # new) ! (k - 1)))
              ((ct # new) ! k)" if "k < length (ct # new)" for k
      proof (cases k)
        case 0
        with R0 show ?thesis by simp
      next
        case (Suc k')
        with that have "k' < length new" by simp
        with new(2) have "R (if k' = 0 then balance (acct (step df s))
            else account_balance (new ! (k' - 1))) (new ! k')"
          by blast
        with Suc bal show ?thesis by (cases k') simp_all
      qed
      with tr show ?thesis by blast
    qed
  qed
qed

lemma emitted_ledger:
  assumes "\<And>s tt entry sl sty trig j res xp.
      cursor s < length df \<Longrightarrow> \<not> trade_is_open s \<Longrightarrow> in_session (df ! cursor s) \<Longrightarrow>
      detect df (cursor s) = Some (tt, entry, sl, sty, trig) \<Longrightarrow>
      \<not> \<bar>entry - sl\<bar> \<le> 0.0001 \<Longrightarrow> get_position_size (acct s) 1 entry sl > 0 \<Longrightarrow>
      exit_scan df tt sl (target_price tt entry sl) (cursor s + 1) = Some (j, res, xp) \<Longrightarrow>
      R (balance (acct s)) (closed_trade df s (tt, entry, sl, sty, trig) (j, res, xp))"
  shows "\<forall>k < length (emitted df lg).
     R (if k = 0 then 10000 else account_balance (emitted df lg ! (k - 1))) (emitted df lg ! k)"
proof -
  from loop_ledger [of df R "initial_engine lg", OF assms]
  obtain new where new: "trades (loop df (initial_engine lg)) = trades (initial_engine lg) @ new"
    "\<forall>k < length new.
       R (if k = 0 then balance (acct (initial_engine lg)) else account_balance (new ! (k - 1)))
         (new ! k)"
    by blast
  from new(1) have e: "emitted df lg = new"
    by (simp add: emitted_def run_backtest_def initial_engine_def)
  have b: "balance (acct (initial_engine lg)) = 10000"
    by (simp add: initial_engine_def Account_def)
  show ?thesis
    unfolding e using new(2) [unfolded b] .
qed

section \<open>The swing rows that the detector reads\<close>

text \<open>Taking the last row of a filtered frame is taking the row of the largest label
  that passes the filter.\<close>

lemma iloc_last_enumerate:
  "iloc_last (filter Q (enumerate 0 df)) = Some (k, c) \<longleftrightarrow>
     k < length df \<and> c = df ! k \<and> Q (k, df ! k) \<and>
     (\<forall>m. k < m \<and> m < length df \<longrightarrow> \<not> Q (m, df ! m))"
proof (induction df rule: rev_induct)
  case Nil
  show ?case by (simp add: iloc_last_def)
next
  case (snoc x xs)
  have en: "enumerate 0 (xs @ [x]) = enumerate 0 xs @ [(length xs, x)]"
    by (simp add: enumerate_append_eq)
  show ?case
  proof (cases "Q (length xs, x)")
    case True
    then have "iloc_last (filter Q (enumerate 0 (xs @ [x]))) = Some (length xs, x)"
      by (simp add: en iloc_last_def)
    moreover have "(k < length (xs @ [x]) \<and> c = (xs @ [x]) ! k \<and> Q (k, (xs @ [x]) ! k) \<and>
       (\<forall>m. k < m \<and> m < length (xs @ [x]) \<longrightarrow> \<not> Q (m, (xs @ [x]) ! m)))
       \<longleftrightarrow> (k = length xs \<and> c = x)"
    proof
      assume a: "k < length (xs @ [x]) \<and> c = (xs @ [x]) ! k \<and> Q (k, (xs @ [x]) ! k) \<and>
       (\<forall>m. k < m \<and> m < length (xs @ [x]) \<longrightarrow> \<not> Q (m, (xs @ [x]) ! m))"
      have "\<not> k < length xs"
      proof
        assume "k < length xs"
        moreover from a have "k < length xs \<and> length xs < length (xs @ [x]) \<longrightarrow>
          \<not> Q (length xs, (xs @ [x]) ! length xs)" by blast
        ultimately have "\<not> Q (length xs, (xs @ [x]) ! length xs)" by simp
        with True show False by simp
      qed
      with a show "k = length xs \<and> c = x" by (auto simp: nth_append)
    next
      assume "k = length xs \<and> c = x"
      with True show "k < length (xs @ [x]) \<and> c = (xs @ [x]) ! k \<and> Q (k, (xs @ [x]) ! k) \<and>
       (\<forall>m. k < m \<and> m < length (xs @ [x]) \<longrightarrow> \<not> Q (m, (xs @ [x]) ! m))" by auto
    qed
    ultimately show ?thesis by auto
  next
    case False
    then have l: "iloc_last (filter Q (enumerate 0 (xs @ [x]))) = iloc_last (filter Q (enumerate 0 xs))"
      by (simp add: en)
    have "(k < length (xs @ [x]) \<and> c = (xs @ [x]) ! k \<and> Q (k, (xs @ [x]) ! k) \<and>
       (\<forall>m. k < m \<and> m < length (xs @ [x]) \<longrightarrow> \<not> Q (m, (xs @ [x]) ! m)))
       \<longleftrightarrow> (k < length xs \<and> c = xs ! k \<and> Q (k, xs ! k) \<and>
       (\<forall>m. k < m \<and> m < length xs \<longrightarrow> \<not> Q (m, xs ! m)))" (is "?L \<longleftrightarrow> ?R")
    proof
      assume a: ?L
      have kl: "k < length xs"
      proof (rule ccontr)
        assume "\<not> k < length xs"
        with a have "k = length xs" by simp
        with a False show False by simp
      qed
      with a show ?R by (auto simp: nth_append)
    next
      assume a: ?R
      then have "\<not> Q (m, (xs @ [x]) ! m)" if "k < m" "m < length (xs @ [x])" for m
        using that False by (cases "m = length xs") (auto simp: nth_append)
      with a show ?L by (auto simp: nth_append)
    qed
    with l snoc.IH show ?thesis by simp
  qed
qed

lemma last_lower_high_Some:
  "last_lower_high df i = Some (k, c) \<longleftrightarrow>
     k < i \<and> k < length df \<and> c = df ! k \<and> swing_high c = Some True \<and> ema_fast c < ema_slow c \<and>
     (\<forall>m. k < m \<and> m < i \<and> m < length df \<longrightarrow>
        \<not> (swing_high (df ! m) = Some True \<and> ema_fast (df ! m) < ema_slow (df ! m)))"
  unfolding last_lower_high_def index_before_def swing_highs_def Let_def filter_filter
  by (subst iloc_last_enumerate) auto

lemma last_higher_low_Some:
  "last_higher_low df i = Some (k, c) \<longleftrightarrow>
     k < i \<and> k < length df \<and> c = df ! k \<and> swing_low c = Some True \<and> ema_fast c > ema_slow c \<and>
     (\<forall>m. k < m \<and> m < i \<and> m < length df \<longrightarrow>
        \<not> (swing_low (df ! m) = Some True \<and> ema_fast (df ! m) > ema_slow (df ! m)))"
  unfolding last_higher_low_def index_before_def swing_lows_def Let_def filter_filter
  by (subst iloc_last_enumerate) auto

lemma recent_lows_last_Some:
  "recent_lows_last df i = Some (k, c) \<longleftrightarrow>
     k < i \<and> k < length df \<and> c = df ! k \<and> swing_low c = Some True \<and>
     (\<forall>m. k < m \<and> m < i \<and> m < length df \<longrightarrow> swing_low (df ! m) \<noteq> Some True)"
  unfolding recent_lows_last_def index_before_def swing_lows_def Let_def filter_filter
  by (subst iloc_last_enumerate) auto

lemma recent_highs_last_Some:
  "recent_highs_last df i = Some (k, c) \<longleftrightarrow>
     k < i \<and> k < length df \<and> c = df ! k \<and> swing_high c = Some True \<and>
     (\<forall>m. k < m \<and> m < i \<and> m < length df \<longrightarrow> swing_high (df ! m) \<noteq> Some True)"
  unfolding recent_highs_last_def index_before_def swing_highs_def Let_def filter_filter
  by (subst iloc_last_enumerate) auto

section \<open>Swing flags, row by row\<close>

lemma find_swing_points_length: "length (find_swing_points df L) = length df"
  by (simp add: find_swing_points_def)

lemma find_swing_points_nth:
  "k < length df \<Longrightarrow>
   find_swing_points df L ! k =
     (df ! k)\<lparr>swing_high := map_option (\<lambda>x. x ! L = Max (set x)) (rolling_center L (map high df) k),
              swing_low := map_option (\<lambda>x. x ! L = Min (set x)) (rolling_center L (map low df) k)\<rparr>"
  by (simp add: find_swing_points_def)

section \<open>A sample series\<close>

text \<open>
  A series of 207 one-minute candles starting at 08:00, with prices quoted in whole
  points. Rows 0 to 198 are flat; row 199 dips to 95; row 200 closes at 105, above the
  earlier highs of 100, with the fast average above the slow one; row 201 falls back
  to 95 and closes at 104; row 202 reaches 122. Two values of row 202 are parameters.
  Its low \<open>l\<close> is 95 or 96: at 95 the row touches both the stop and the target of the
  trade entered at row 201, at 96 only the target. Its close \<open>c\<close>: above 100 it triggers
  a third long trade that no later row closes, at 100 it triggers nothing. The swing
  flags are those that \<open>find_swing_points\<close> computes with the lookback 5; the moving
  averages are given with the rows, as \<^verbatim>\<open>run_backtest\<close> reads them.
\<close>

definition bar :: "nat \<Rightarrow> real \<Rightarrow> real \<Rightarrow> real \<Rightarrow> real \<Rightarrow> real \<Rightarrow> candle" where
  "bar k h l c ef es =
     \<lparr>timestamp = 28800000000 + k * 60000000, high = h, low = l, close = c,
      ema_fast = ef, ema_slow = es, swing_high = None, swing_low = None\<rparr>"

definition sample_bars :: "real \<Rightarrow> real \<Rightarrow> candle list" where
  "sample_bars l202 c202 =
     map (\<lambda>k. bar k 100 98 99 99 100) [0..<199] @
     [bar 199 100 95 96 99 100,
      bar 200 106 96 105 101 100,
      bar 201 106 95 104 101 100,
      bar 202 122 l202 c202 101 100,
      bar 203 110 97 100 101 100,
      bar 204 110 97 100 101 100,
      bar 205 110 97 100 101 100,
      bar 206 110 97 100 101 100]"

definition sample_frame :: "real \<Rightarrow> real \<Rightarrow> candle list" where
  "sample_frame l202 c202 = find_swing_points (sample_bars l202 c202) 5"

lemma sample_bars_length: "length (sample_bars l c) = 207"
  by (simp add: sample_bars_def)

lemma sample_frame_length: "length (sample_frame l c) = 207"
  by (simp add: sample_frame_def find_swing_points_length sample_bars_length)

lemma sample_bars_highs:
  "map high (sample_bars l c) = replicate 199 100 @ [100, 106, 106, 122, 110, 110, 110, 110]"
  by (simp add: sample_bars_def bar_def comp_def map_replicate_const)

lemma sample_bars_lows:
  "map low (sample_bars l c) = replicate 199 98 @ [95, 96, 95, l, 97, 97, 97, 97]"
  by (simp add: sample_bars_def bar_def comp_def map_replicate_const)

lemma sample_bars_filler: "k < 199 \<Longrightarrow> sample_bars l c ! k = bar k 100 98 99 99 100"
  by (simp add: sample_bars_def nth_append)

lemma sample_bars_tail:
  "sample_bars l c ! 199 = bar 199 100 95 96 99 100"
  "sample_bars l c ! 200 = bar 200 106 96 105 101 100"
  "sample_bars l c ! 201 = bar 201 106 95 104 101 100"
  "sample_bars l c ! 202 = bar 202 122 l c 101 100"
  "sample_bars l c ! 203 = bar 203 110 97 100 101 100"
  "sample_bars l c ! 204 = bar 204 110 97 100 101 100"
  "sample_bars l c ! 205 = bar 205 110 97 100 101 100"
  "sample_bars l c ! 206 = bar 206 110 97 100 101 100"
  by (simp_all add: sample_bars_def nth_append)

lemmas sample_frame_simps = sample_frame_def find_swing_points_nth sample_bars_length
  sample_bars_highs sample_bars_lows sample_bars_filler sample_bars_tail rolling_center_def
  nth_append

lemma sample_frame_rows:
  assumes "l = 95 \<or> l = 96"
  shows
  "sample_frame l c ! 194 = (bar 194 100 98 99 99 100)\<lparr>swing_high := Some True, swing_low := Some False\<rparr>"
  "sample_frame l c ! 195 = (bar 195 100 98 99 99 100)\<lparr>swing_high := Some False, swing_low := Some False\<rparr>"
  "sample_frame l c ! 196 = (bar 196 100 98 99 99 100)\<lparr>swing_high := Some False, swing_low := Some False\<rparr>"
  "sample_frame l c ! 197 = (bar 197 100 98 99 99 100)\<lparr>swing_high := Some False, swing_low := Some False\<rparr>"
  "sample_frame l c ! 198 = (bar 198 100 98 99 99 100)\<lparr>swing_high := Some False, swing_low := Some False\<rparr>"
  "sample_frame l c ! 199 = (bar 199 100 95 96 99 100)\<lparr>swing_high := Some False, swing_low := Some True\<rparr>"
  "sample_frame l c ! 200 = (bar 200 106 96 105 101 100)\<lparr>swing_high := Some False, swing_low := Some False\<rparr>"
  "sample_frame l c ! 201 = (bar 201 106 95 104 101 100)\<lparr>swing_high := Some False, swing_low := Some True\<rparr>"
  "sample_frame l c ! 202 = (bar 202 122 l c 101 100)\<lparr>swing_high := None, swing_low := None\<rparr>"
  "sample_frame l c ! 203 = (bar 203 110 97 100 101 100)\<lparr>swing_high := None, swing_low := None\<rparr>"
  "sample_frame l c ! 204 = (bar 204 110 97 100 101 100)\<lparr>swing_high := None, swing_low := None\<rparr>"
  "sample_frame l c ! 205 = (bar 205 110 97 100 101 100)\<lparr>swing_high := None, swing_low := None\<rparr>"
  "sample_frame l c ! 206 = (bar 206 110 97 100 101 100)\<lparr>swing_high := None, swing_low := None\<rparr>"
  using assms by (auto simp: sample_frame_simps)

lemma sample_frame_cases:
  fixes m :: nat
  assumes "194 < m" "m < 207"
  shows "m = 195 \<or> m = 196 \<or> m = 197 \<or> m = 198 \<or> m = 199 \<or> m = 200 \<or> m = 201
      \<or> m = 202 \<or> m = 203 \<or> m = 204 \<or> m = 205 \<or> m = 206"
  using assms by arith

lemma sample_frame_no_lower_high:
  assumes "l = 95 \<or> l = 96" "194 < m" "m < 207"
  shows "\<not> (swing_high (sample_frame l c ! m) = Some True \<and>
            ema_fast (sample_frame l c ! m) < ema_slow (sample_frame l c ! m))"
  using sample_frame_cases [OF assms(2,3)]
  by (elim disjE) (simp_all add: sample_frame_rows [OF assms(1)] bar_def)

lemma sample_bars_timestamp:
  assumes "m < 207"
  shows "timestamp (sample_bars l c ! m) = 28800000000 + m * 60000000"
proof (cases "m < 199")
  case True
  then show ?thesis by (simp add: sample_bars_filler bar_def)
next
  case False
  with assms have "m = 199 \<or> m = 200 \<or> m = 201 \<or> m = 202 \<or> m = 203 \<or> m = 204 \<or> m = 205
      \<or> m = 206"
    by arith
  then show ?thesis
    by (elim disjE) (simp_all add: sample_bars_tail bar_def)
qed

lemma sample_frame_timestamps:
  assumes "m < 207"
  shows "timestamp (sample_frame l c ! m) = 28800000000 + m * 60000000"
  using assms
  by (simp add: sample_frame_def find_swing_points_nth sample_bars_length sample_bars_timestamp)

lemma sample_frame_in_session:
  assumes "l = 95 \<or> l = 96" "194 < m" "m < 207"
  shows "in_session (sample_frame l c ! m)"
  using sample_frame_cases [OF assms(2,3)]
  by (elim disjE)
    (simp_all add: sample_frame_rows [OF assms(1)] bar_def in_session_def time_of_day_def
      london_open_def ny_close_def)

lemma sample_frame_last_lower_high:
  assumes "l = 95 \<or> l = 96" "194 < i"
  shows "last_lower_high (sample_frame l c) i = Some (194, sample_frame l c ! 194)"
  unfolding last_lower_high_Some
  using assms(2) sample_frame_no_lower_high [OF assms(1), of _ c]
  by (simp add: sample_frame_length sample_frame_rows [OF assms(1)] bar_def)

lemma sample_frame_recent_low_200:
  assumes "l = 95 \<or> l = 96"
  shows "recent_lows_last (sample_frame l c) 200 = Some (199, sample_frame l c ! 199)"
  unfolding recent_lows_last_Some
  by (simp add: sample_frame_length sample_frame_rows [OF assms]) arith

lemma sample_frame_recent_low_201:
  assumes "l = 95 \<or> l = 96"
  shows "recent_lows_last (sample_frame l c) 201 = Some (199, sample_frame l c ! 199)"
proof -
  have "swing_low (sample_frame l c ! m) \<noteq> Some True" if "199 < m" "m < 201" for m
  proof -
    from that have "m = 200" by arith
    then show ?thesis by (simp add: sample_frame_rows [OF assms])
  qed
  then show ?thesis
    unfolding recent_lows_last_Some
    by (simp add: sample_frame_length sample_frame_rows [OF assms])
qed

lemma sample_frame_recent_low_202:
  assumes "l = 95 \<or> l = 96"
  shows "recent_lows_last (sample_frame l c) 202 = Some (201, sample_frame l c ! 201)"
  unfolding recent_lows_last_Some
  by (simp add: sample_frame_length sample_frame_rows [OF assms]) arith

lemma sample_frame_recent_high_200:
  assumes "l = 95 \<or> l = 96"
  shows "recent_highs_last (sample_frame l c) 200 = Some (194, sample_frame l c ! 194)"
proof -
  have "swing_high (sample_frame l c ! m) \<noteq> Some True" if "194 < m" "m < 200" for m
  proof -
    from that have "m = 195 \<or> m = 196 \<or> m = 197 \<or> m = 198 \<or> m = 199" by arith
    then show ?thesis by (elim disjE) (simp_all add: sample_frame_rows [OF assms])
  qed
  then show ?thesis
    unfolding recent_highs_last_Some
    by (simp add: sample_frame_length sample_frame_rows [OF assms])
qed

lemma sample_frame_last_higher_low_202:
  assumes "l = 95 \<or> l = 96"
  shows "last_higher_low (sample_frame l c) 202 = Some (201, sample_frame l c ! 201)"
  unfolding last_higher_low_Some
  by (simp add: sample_frame_length sample_frame_rows [OF assms] bar_def) arith

lemma detect_sample_200:
  assumes "l = 95 \<or> l = 96"
  shows "detect (sample_frame l c) 200 = Some (Buy, 105, 95, ''MSS - Bullish'', Break_of_LH 100)"
  by (simp add: detect_def sample_frame_last_lower_high [OF assms]
      sample_frame_recent_low_200 [OF assms] sample_frame_rows [OF assms] bar_def)

lemma detect_sample_201:
  assumes "l = 95 \<or> l = 96"
  shows "detect (sample_frame l c) 201 = Some (Buy, 104, 95, ''MSS - Bullish'', Break_of_LH 100)"
  by (simp add: detect_def sample_frame_last_lower_high [OF assms]
      sample_frame_recent_low_201 [OF assms] sample_frame_rows [OF assms] bar_def)

lemma detect_sample_202:
  assumes "l = 95 \<or> l = 96" "100 < c"
  shows "detect (sample_frame l c) 202 = Some (Buy, c, 95, ''MSS - Bullish'', Break_of_LH 100)"
  using assms(2)
  by (simp add: detect_def sample_frame_last_lower_high [OF assms(1)]
      sample_frame_recent_low_202 [OF assms(1)] sample_frame_rows [OF assms(1)] bar_def)

lemma detect_sample_202_flat:
  assumes "l = 95 \<or> l = 96" "c \<le> 100"
  shows "detect (sample_frame l c) 202 = None"
  using assms(2)
  by (simp add: detect_def sample_frame_last_lower_high [OF assms(1)]
      sample_frame_rows [OF assms(1)] bar_def)

lemma detect_sample_tail:
  assumes "l = 95 \<or> l = 96" "202 < i" "i < 207"
  shows "detect (sample_frame l c) i = None"
proof -
  from assms(2,3) have "i = 203 \<or> i = 204 \<or> i = 205 \<or> i = 206" by arith
  then show ?thesis
    by (elim disjE)
      (simp_all add: detect_def sample_frame_last_lower_high [OF assms(1)]
        sample_frame_rows [OF assms(1)] bar_def)
qed

text \<open>The three trades that the runs over the sample record: the first stopped out at
  row 201, the second entered at that same row and stopped out at row 202 when the low
  of row 202 is 95, or closed at its target there when that low is 96.\<close>

definition trade_1 :: trade where
  "trade_1 = \<lparr>entry_time = 40800000000, exit_time = 40860000000, trade_type = Buy,
     entry_price = 105, exit_price = 95, stop_loss = 95, take_profit = 125,
     position_size = 10, pnl_currency = - 100, account_balance = 9900, result = Loss,
     setup_type = ''MSS - Bullish'', trigger_level = Break_of_LH 100\<rparr>"

definition trade_2 :: trade where
  "trade_2 = \<lparr>entry_time = 40860000000, exit_time = 40920000000, trade_type = Buy,
     entry_price = 104, exit_price = 95, stop_loss = 95, take_profit = 122,
     position_size = 11, pnl_currency = - 99, account_balance = 9801, result = Loss,
     setup_type = ''MSS - Bullish'', trigger_level = Break_of_LH 100\<rparr>"

definition trade_2_win :: trade where
  "trade_2_win = \<lparr>entry_time = 40860000000, exit_time = 40920000000, trade_type = Buy,
     entry_price = 104, exit_price = 122, stop_loss = 95, take_profit = 122,
     position_size = 11, pnl_currency = 198, account_balance = 10098, result = Win,
     setup_type = ''MSS - Bullish'', trigger_level = Break_of_LH 100\<rparr>"

lemma exit_scan_sample_201:
  assumes "l = 95 \<or> l = 96"
  shows "exit_scan (sample_frame l c) Buy 95 125 201 = Some (201, Loss, 95)"
  by (simp add: exit_scan.simps [of _ _ _ _ 201] sample_frame_length
      sample_frame_rows [OF assms] bar_def check_exit_def)

lemma exit_scan_sample_202:
  "exit_scan (sample_frame 95 c) Buy 95 122 202 = Some (202, Loss, 95)"
  by (simp add: exit_scan.simps [of _ _ _ _ 202] sample_frame_length sample_frame_rows bar_def
      check_exit_def)

lemma exit_scan_sample_202_win:
  "exit_scan (sample_frame 96 c) Buy 95 122 202 = Some (202, Win, 122)"
  by (simp add: exit_scan.simps [of _ _ _ _ 202] sample_frame_length sample_frame_rows bar_def
      check_exit_def)

lemma exit_scan_sample_203:
  assumes "l = 95 \<or> l = 96"
  shows "exit_scan (sample_frame l c) Buy 95 140 203 = None"
  by (simp add: exit_scan.simps sample_frame_length sample_frame_rows [OF assms] bar_def
      check_exit_def)

definition engine_201 :: "trade list \<Rightarrow> engine" where
  "engine_201 lg = \<lparr>cursor = 201, trade_is_open = False,
     acct = \<lparr>balance = 9900, initial_balance = 10000\<rparr>, trades = lg @ [trade_1]\<rparr>"

definition engine_202 :: "trade list \<Rightarrow> engine" where
  "engine_202 lg = \<lparr>cursor = 202, trade_is_open = False,
     acct = \<lparr>balance = 9801, initial_balance = 10000\<rparr>, trades = lg @ [trade_1, trade_2]\<rparr>"

definition engine_202_win :: "trade list \<Rightarrow> engine" where
  "engine_202_win lg = \<lparr>cursor = 202, trade_is_open = False,
     acct = \<lparr>balance = 10098, initial_balance = 10000\<rparr>,
     trades = lg @ [trade_1, trade_2_win]\<rparr>"

lemma cursor_initial_engine: "cursor (initial_engine lg) = 200"
  by (simp add: initial_engine_def)

lemma cursor_engine_201: "cursor (engine_201 lg) = 201"
  by (simp add: engine_201_def)

lemma cursor_engine_202: "cursor (engine_202 lg) = 202"
  by (simp add: engine_202_def)

lemma cursor_engine_202_win: "cursor (engine_202_win lg) = 202"
  by (simp add: engine_202_win_def)

lemma step_sample_200:
  assumes "l = 95 \<or> l = 96"
  shows "step (sample_frame l c) (initial_engine lg) = engine_201 lg"
  by (simp add: step_def initial_engine_def Account_def Let_def
      sample_frame_in_session [OF assms] detect_sample_200 [OF assms] get_position_size_def
      exit_scan_sample_201 [OF assms] update_balance_def log_trade_def trade_1_def
      sample_frame_timestamps engine_201_def)

lemma step_sample_201: "step (sample_frame 95 c) (engine_201 lg) = engine_202 lg"
  by (simp add: step_def Let_def sample_frame_in_session detect_sample_201
      get_position_size_def exit_scan_sample_202 update_balance_def log_trade_def trade_2_def
      sample_frame_timestamps engine_201_def engine_202_def)

lemma step_sample_201_win: "step (sample_frame 96 c) (engine_201 lg) = engine_202_win lg"
  by (simp add: step_def Let_def sample_frame_in_session detect_sample_201
      get_position_size_def exit_scan_sample_202_win update_balance_def log_trade_def
      trade_2_win_def sample_frame_timestamps engine_201_def engine_202_win_def)

lemma step_sample_202_open:
  "step (sample_frame 95 110) (engine_202 lg)
     = (engine_202 lg)\<lparr>cursor := 207, trade_is_open := True\<rparr>"
  by (simp add: step_def Let_def sample_frame_in_session detect_sample_202
      get_position_size_def exit_scan_sample_203 sample_frame_length engine_202_def)

lemma step_sample_202_win_open:
  "step (sample_frame 96 110) (engine_202_win lg)
     = (engine_202_win lg)\<lparr>cursor := 207, trade_is_open := True\<rparr>"
  by (simp add: step_def Let_def sample_frame_in_session detect_sample_202
      get_position_size_def exit_scan_sample_203 sample_frame_length engine_202_win_def)

lemma step_sample_flat:
  assumes "201 < i" "i < 207"
  shows "step (sample_frame 95 100) ((engine_202 lg)\<lparr>cursor := i\<rparr>)
     = (engine_202 lg)\<lparr>cursor := Suc i\<rparr>"
proof (cases "i = 202")
  case True
  then show ?thesis
    by (simp add: step_def Let_def detect_sample_202_flat engine_202_def)
next
  case False
  with assms have "202 < i" by simp
  with assms show ?thesis
    by (simp add: step_def Let_def detect_sample_tail engine_202_def)
qed

lemma loop_sample_open:
  "loop (sample_frame 95 110) (initial_engine lg)
     = (engine_202 lg)\<lparr>cursor := 207, trade_is_open := True\<rparr>"
proof -
  have "loop (sample_frame 95 110) (initial_engine lg) = loop (sample_frame 95 110) (engine_201 lg)"
    by (subst loop.simps) (simp add: sample_frame_length step_sample_200 cursor_initial_engine)
  also have "\<dots> = loop (sample_frame 95 110) (engine_202 lg)"
    by (subst loop.simps) (simp add: sample_frame_length step_sample_201 cursor_engine_201)
  also have "\<dots> = loop (sample_frame 95 110)
      ((engine_202 lg)\<lparr>cursor := 207, trade_is_open := True\<rparr>)"
    by (subst loop.simps) (simp add: sample_frame_length step_sample_202_open cursor_engine_202)
  also have "\<dots> = (engine_202 lg)\<lparr>cursor := 207, trade_is_open := True\<rparr>"
    by (subst loop.simps) (simp add: sample_frame_length)
  finally show ?thesis .
qed

lemma loop_sample_win_open:
  "loop (sample_frame 96 110) (initial_engine lg)
     = (engine_202_win lg)\<lparr>cursor := 207, trade_is_open := True\<rparr>"
proof -
  have "loop (sample_frame 96 110) (initial_engine lg) = loop (sample_frame 96 110) (engine_201 lg)"
    by (subst loop.simps) (simp add: sample_frame_length step_sample_200 cursor_initial_engine)
  also have "\<dots> = loop (sample_frame 96 110) (engine_202_win lg)"
    by (subst loop.simps) (simp add: sample_frame_length step_sample_201_win cursor_engine_201)
  also have "\<dots> = loop (sample_frame 96 110)
      ((engine_202_win lg)\<lparr>cursor := 207, trade_is_open := True\<rparr>)"
    by (subst loop.simps)
      (simp add: sample_frame_length step_sample_202_win_open cursor_engine_202_win)
  also have "\<dots> = (engine_202_win lg)\<lparr>cursor := 207, trade_is_open := True\<rparr>"
    by (subst loop.simps) (simp add: sample_frame_length)
  finally show ?thesis .
qed

lemma loop_sample_flat_tail:
  assumes "201 < i" "i \<le> 207"
  shows "loop (sample_frame 95 100) ((engine_202 lg)\<lparr>cursor := i\<rparr>)
     = (engine_202 lg)\<lparr>cursor := 207\<rparr>"
  using assms
proof (induction "207 - i" arbitrary: i)
  case 0
  then have "i = 207" by simp
  then show ?case by (subst loop.simps) (simp add: sample_frame_length)
next
  case (Suc n)
  then have i: "201 < i" "i < 207" by simp_all
  have "loop (sample_frame 95 100) ((engine_202 lg)\<lparr>cursor := i\<rparr>)
      = loop (sample_frame 95 100) ((engine_202 lg)\<lparr>cursor := Suc i\<rparr>)"
    using i by (subst loop.simps) (simp add: sample_frame_length step_sample_flat)
  also have "\<dots> = (engine_202 lg)\<lparr>cursor := 207\<rparr>"
    using Suc.hyps(2) i by (intro Suc.hyps(1)) simp_all
  finally show ?case .
qed

lemma loop_sample_flat:
  "loop (sample_frame 95 100) (initial_engine lg) = (engine_202 lg)\<lparr>cursor := 207\<rparr>"
proof -
  have "loop (sample_frame 95 100) (initial_engine lg) = loop (sample_frame 95 100) (engine_201 lg)"
    by (subst loop.simps) (simp add: sample_frame_length step_sample_200 cursor_initial_engine)
  also have "\<dots> = loop (sample_frame 95 100) (engine_202 lg)"
    by (subst loop.simps) (simp add: sample_frame_length step_sample_201 cursor_engine_201)
  also have "\<dots> = loop (sample_frame 95 100) ((engine_202 lg)\<lparr>cursor := 202\<rparr>)"
    by (simp add: engine_202_def)
  also have "\<dots> = (engine_202 lg)\<lparr>cursor := 207\<rparr>"
    by (rule loop_sample_flat_tail) simp_all
  finally show ?thesis .
qed

lemma emitted_sample_open: "emitted (sample_frame 95 110) lg = [trade_1, trade_2]"
  by (simp add: emitted_def run_backtest_def loop_sample_open engine_202_def)

lemma emitted_sample_win: "emitted (sample_frame 96 110) lg = [trade_1, trade_2_win]"
  by (simp add: emitted_def run_backtest_def loop_sample_win_open engine_202_win_def)

section \<open>The position sizer\<close>

text \<open>
  Claim C7. For every balance, risk percentage, entry price and stop price: when the
  distance between entry and stop is zero the position sizer returns 0, and otherwise
  it returns the risked amount, balance times the risk percentage over 100, divided by
  that distance.
\<close>

theorem get_position_size_spec:
  "(\<bar>entry - stop\<bar> = 0 \<longrightarrow> get_position_size a risk_percent entry stop = 0) \<and>
   (\<bar>entry - stop\<bar> \<noteq> 0 \<longrightarrow>
      get_position_size a risk_percent entry stop
        = (balance a * risk_percent / 100) / \<bar>entry - stop\<bar>)"
  by (simp add: get_position_size_def Let_def)

theorem get_position_size_spec_witness:
  "\<bar>(1.05::real) - 1.05\<bar> = 0 \<and> get_position_size (Account 10000) 1 1.05 1.05 = 0 \<and>
   \<bar>(1.05::real) - 0.95\<bar> \<noteq> 0 \<and> get_position_size (Account 10000) 1 1.05 0.95 = 1000"
  using get_position_size_spec [where a = "Account 10000" and risk_percent = 1
      and entry = "1.05" and stop = "1.05"]
    get_position_size_spec [where a = "Account 10000" and risk_percent = 1
      and entry = "1.05" and stop = "0.95"]
  by (simp add: Account_def)

section \<open>Stop and target of every recorded trade\<close>

text \<open>
  Claim C4. Every trade record that a run emits satisfies: a win exits at the take-profit
  price and a loss exits at the stop-loss price, for long and short trades alike; and
  the take-profit price is the entry price plus twice the distance between entry and
  stop for a long trade, minus twice that distance for a short trade.
\<close>

theorem stop_and_target_prices:
  "\<forall>r \<in> set (emitted df lg).
     (result r = Win \<longrightarrow> exit_price r = take_profit r) \<and>
     (result r = Loss \<longrightarrow> exit_price r = stop_loss r) \<and>
     (trade_type r = Buy \<longrightarrow>
        take_profit r = entry_price r + 2 * \<bar>entry_price r - stop_loss r\<bar>) \<and>
     (trade_type r = Sell \<longrightarrow>
        take_profit r = entry_price r - 2 * \<bar>entry_price r - stop_loss r\<bar>)"
proof (rule emitted_all, goal_cases)
  case (1 s tt entry sl sty trig j res xp)
  from exit_scan_Some [OF "1"(7)]
  have "check_exit tt sl (target_price tt entry sl) (df ! j) = Some (res, xp)" by simp
  from check_exit_result [OF this]
  show ?case by (simp add: closed_trade_def target_price_def)
qed

theorem stop_and_target_prices_witness:
  "trade_1 \<in> set (emitted (sample_frame 95 110) []) \<and> result trade_1 = Loss \<and>
   exit_price trade_1 = stop_loss trade_1 \<and> trade_type trade_1 = Buy \<and>
   take_profit trade_1 = entry_price trade_1 + 2 * \<bar>entry_price trade_1 - stop_loss trade_1\<bar> \<and>
   trade_2_win \<in> set (emitted (sample_frame 96 110) []) \<and> result trade_2_win = Win \<and>
   exit_price trade_2_win = take_profit trade_2_win"
proof -
  have m: "trade_1 \<in> set (emitted (sample_frame 95 110) [])"
    by (simp add: emitted_sample_open)
  have w: "trade_2_win \<in> set (emitted (sample_frame 96 110) [])"
    by (simp add: emitted_sample_win)
  from stop_and_target_prices [of "sample_frame 95 110" "[]", rule_format, OF m]
    stop_and_target_prices [of "sample_frame 96 110" "[]", rule_format, OF w] m w
  show ?thesis by (simp add: trade_1_def trade_2_win_def)
qed

section \<open>Stop before target on one candle\<close>

text \<open>A candle on which both exit conditions of a position hold: for a long position the
  low is at or below the stop and the high at or above the target, for a short one the
  high is at or above the stop and the low at or below the target.\<close>

definition both_hit :: "trade_type \<Rightarrow> real \<Rightarrow> real \<Rightarrow> candle \<Rightarrow> bool" where
  "both_hit tt sl tp c =
     (if tt = Buy then low c \<le> sl \<and> high c \<ge> tp else high c \<ge> sl \<and> low c \<le> tp)"

text \<open>
  Claim C3. On each candle scanned for the exit of an open position the stop-loss
  condition is tested before the take-profit condition: a candle that satisfies both
  resolves as a loss at the stop-loss price. Hence, when an iteration of the engine
  records a trade whose exit candle satisfies both conditions, the record is a loss at
  the stop-loss price, never a win.
\<close>

theorem stop_loss_tested_first:
  "(both_hit tt sl tp c \<longrightarrow> check_exit tt sl tp c = Some (Loss, sl)) \<and>
   (cursor s < length df \<and> trades (step df s) = trades s @ [r] \<and>
    both_hit (trade_type r) (stop_loss r) (take_profit r) (df ! cursor (step df s))
      \<longrightarrow> result r = Loss \<and> exit_price r = stop_loss r)"
proof (rule conjI; rule impI)
  assume "both_hit tt sl tp c"
  then show "check_exit tt sl tp c = Some (Loss, sl)"
    by (simp add: both_hit_def check_exit_def split: if_splits)
next
  assume a: "cursor s < length df \<and> trades (step df s) = trades s @ [r] \<and>
    both_hit (trade_type r) (stop_loss r) (take_profit r) (df ! cursor (step df s))"
  then have inside: "cursor s < length df" by simp
  from inside show "result r = Loss \<and> exit_price r = stop_loss r"
  proof (cases rule: step_cases)
    case skip
    with a show ?thesis by simp
  next
    case (closed tt' entry sl' sty trig j res xp)
    from closed(7) a have r: "r = closed_trade df s (tt', entry, sl', sty, trig) (j, res, xp)"
      and j: "cursor (step df s) = j"
      by simp_all
    from exit_scan_Some [OF closed(6)]
    have ce: "check_exit tt' sl' (target_price tt' entry sl') (df ! j) = Some (res, xp)"
      by simp
    from a r j have "both_hit tt' sl' (target_price tt' entry sl') (df ! j)"
      by (simp add: closed_trade_def)
    then have "check_exit tt' sl' (target_price tt' entry sl') (df ! j) = Some (Loss, sl')"
      by (simp add: both_hit_def check_exit_def split: if_splits)
    with ce have "res = Loss" "xp = sl'" by simp_all
    with r show ?thesis by (simp add: closed_trade_def)
  next
    case (unresolved tt' entry sl' sty trig)
    with a show ?thesis by simp
  qed
qed

theorem stop_loss_tested_first_witness:
  "both_hit Buy 95 122 (sample_frame 95 110 ! 202) \<and>
   check_exit Buy 95 122 (sample_frame 95 110 ! 202) = Some (Loss, 95) \<and>
   cursor (engine_201 []) < length (sample_frame 95 110) \<and>
   trades (step (sample_frame 95 110) (engine_201 [])) = trades (engine_201 []) @ [trade_2] \<and>
   both_hit (trade_type trade_2) (stop_loss trade_2) (take_profit trade_2)
     (sample_frame 95 110 ! cursor (step (sample_frame 95 110) (engine_201 []))) \<and>
   result trade_2 = Loss \<and> exit_price trade_2 = stop_loss trade_2"
proof -
  have h1: "both_hit Buy 95 122 (sample_frame 95 110 ! 202)"
    by (simp add: both_hit_def sample_frame_rows bar_def)
  have h2: "cursor (engine_201 []) < length (sample_frame 95 110) \<and>
    trades (step (sample_frame 95 110) (engine_201 [])) = trades (engine_201 []) @ [trade_2] \<and>
    both_hit (trade_type trade_2) (stop_loss trade_2) (take_profit trade_2)
      (sample_frame 95 110 ! cursor (step (sample_frame 95 110) (engine_201 [])))"
    using h1
    by (simp add: step_sample_201 cursor_engine_201 cursor_engine_202 sample_frame_length)
      (simp add: engine_201_def engine_202_def trade_2_def)
  from stop_loss_tested_first [of Buy 95 122 "sample_frame 95 110 ! 202" "engine_201 []"
      "sample_frame 95 110" trade_2] h1 h2
  show ?thesis by simp
qed

section \<open>Termination of the main loop\<close>

text \<open>
  Claim C8. For every finite series the cursor strictly increases on every iteration of
  the main loop and never passes the length of the series: an iteration moves it one
  row on, or records a trade and moves it to the exit row, or moves it to the end of
  the series. The loop therefore ends, with the cursor at the length of the series (or
  at its start value where the series is shorter than that); a run starts it at 200.
\<close>

theorem cursor_strictly_increases:
  "(cursor s < length df \<longrightarrow>
      cursor s < cursor (step df s) \<and> cursor (step df s) \<le> length df \<and>
      (cursor (step df s) = cursor s + 1 \<or> length (trades (step df s)) = Suc (length (trades s))
         \<or> cursor (step df s) = length df)) \<and>
   cursor (loop df s) = max (cursor s) (length df) \<and>
   cursor (loop df (initial_engine lg)) = max 200 (length df)"
proof (intro conjI impI)
  assume inside: "cursor s < length df"
  from step_cursor [OF this]
  show "cursor s < cursor (step df s)" and "cursor (step df s) \<le> length df" by simp_all
  from inside
  show "cursor (step df s) = cursor s + 1 \<or> length (trades (step df s)) = Suc (length (trades s))
         \<or> cursor (step df s) = length df"
    by (cases rule: step_cases) simp_all
next
  show "cursor (loop df s) = max (cursor s) (length df)" by (rule loop_cursor)
  show "cursor (loop df (initial_engine lg)) = max 200 (length df)"
    by (simp add: loop_cursor initial_engine_def)
qed

theorem cursor_strictly_increases_witness:
  "cursor (initial_engine []) < length (sample_frame 95 110) \<and>
   cursor (initial_engine []) < cursor (step (sample_frame 95 110) (initial_engine [])) \<and>
   cursor (step (sample_frame 95 110) (initial_engine [])) = 201 \<and>
   cursor (loop (sample_frame 95 110) (initial_engine [])) = 207"
  using cursor_strictly_increases [of "initial_engine []" "sample_frame 95 110" "[]"]
  by (simp add: cursor_initial_engine sample_frame_length step_sample_200 cursor_engine_201)

section \<open>Balance continuity\<close>

text \<open>
  Claim C5. In the sequence of trade records that a run emits, the account balance of
  each record is the account balance of the record before it plus its own profit or
  loss, the balance before the first record being the initial balance 10000.
\<close>

theorem balance_continuity:
  "\<forall>k < length (emitted df lg).
     account_balance (emitted df lg ! k)
       = (if k = 0 then 10000 else account_balance (emitted df lg ! (k - 1)))
         + pnl_currency (emitted df lg ! k)"
  by (rule emitted_ledger [where R = "\<lambda>prev r. account_balance r = prev + pnl_currency r"])
    (simp add: closed_trade_def)

theorem balance_continuity_witness:
  "0 < length (emitted (sample_frame 95 110) []) \<and>
   account_balance (emitted (sample_frame 95 110) [] ! 0)
     = 10000 + pnl_currency (emitted (sample_frame 95 110) [] ! 0) \<and>
   1 < length (emitted (sample_frame 95 110) []) \<and>
   account_balance (emitted (sample_frame 95 110) [] ! 1)
     = account_balance (emitted (sample_frame 95 110) [] ! 0)
       + pnl_currency (emitted (sample_frame 95 110) [] ! 1) \<and>
   account_balance (emitted (sample_frame 95 110) [] ! 1) = 9801"
  using balance_continuity [of "sample_frame 95 110" "[]", rule_format, of 0]
    balance_continuity [of "sample_frame 95 110" "[]", rule_format, of 1]
  by (simp add: emitted_sample_open trade_1_def trade_2_def)

section \<open>Session containment\<close>

text \<open>
  Claim C6. Every trade record that a run emits has an entry time whose time of day lies
  in the session window from 08:00 to 22:00, both ends included; and an iteration whose
  cursor candle has a time of day outside this window produces no setup: it only moves
  the cursor one row on.
\<close>

theorem session_containment:
  "(\<forall>r \<in> set (emitted df lg).
      8 * 3600 * 1000000 \<le> time_of_day (entry_time r) \<and>
      time_of_day (entry_time r) \<le> 22 * 3600 * 1000000) \<and>
   (cursor s < length df \<and>
    \<not> (8 * 3600 * 1000000 \<le> time_of_day (timestamp (df ! cursor s)) \<and>
       time_of_day (timestamp (df ! cursor s)) \<le> 22 * 3600 * 1000000)
    \<longrightarrow> step df s = s\<lparr>cursor := cursor s + 1\<rparr>)"
proof (rule conjI)
  show "\<forall>r \<in> set (emitted df lg).
      8 * 3600 * 1000000 \<le> time_of_day (entry_time r) \<and>
      time_of_day (entry_time r) \<le> 22 * 3600 * 1000000"
  proof (rule emitted_all, goal_cases)
    case (1 s tt entry sl sty trig j res xp)
    from "1"(3) show ?case
      by (simp add: closed_trade_def in_session_def london_open_def ny_close_def)
  qed
next
  show "cursor s < length df \<and>
    \<not> (8 * 3600 * 1000000 \<le> time_of_day (timestamp (df ! cursor s)) \<and>
       time_of_day (timestamp (df ! cursor s)) \<le> 22 * 3600 * 1000000)
    \<longrightarrow> step df s = s\<lparr>cursor := cursor s + 1\<rparr>"
    by (simp add: step_def Let_def in_session_def london_open_def ny_close_def)
qed

theorem session_containment_witness:
  "trade_1 \<in> set (emitted (sample_frame 95 110) []) \<and>
   8 * 3600 * 1000000 \<le> time_of_day (entry_time trade_1) \<and>
   time_of_day (entry_time trade_1) \<le> 22 * 3600 * 1000000 \<and>
   cursor \<lparr>cursor = 0, trade_is_open = False, acct = Account 10000, trades = []\<rparr>
     < length [bar 900 100 98 99 99 100] \<and>
   time_of_day (timestamp ([bar 900 100 98 99 99 100]
     ! cursor \<lparr>cursor = 0, trade_is_open = False, acct = Account 10000, trades = []\<rparr>))
     = 23 * 3600 * 1000000 \<and>
   step [bar 900 100 98 99 99 100]
     \<lparr>cursor = 0, trade_is_open = False, acct = Account 10000, trades = []\<rparr>
     = \<lparr>cursor = 1, trade_is_open = False, acct = Account 10000, trades = []\<rparr>"
proof -
  have m: "trade_1 \<in> set (emitted (sample_frame 95 110) [])"
    by (simp add: emitted_sample_open)
  have t: "time_of_day (timestamp ([bar 900 100 98 99 99 100]
     ! cursor \<lparr>cursor = 0, trade_is_open = False, acct = Account 10000, trades = []\<rparr>))
     = 23 * 3600 * 1000000"
    by (simp add: bar_def time_of_day_def)
  from session_containment [where df = "sample_frame 95 110" and lg = "[]"]
    session_containment [where df = "[bar 900 100 98 99 99 100]"
      and s = "\<lparr>cursor = 0, trade_is_open = False, acct = Account 10000, trades = []\<rparr>"]
    m t
  show ?thesis by simp
qed

section \<open>A position still open at the end of the series\<close>

text \<open>
  Claim C9, as the specification states it: when a position is opened and no exit
  condition fires on any remaining candle, the run ends with the position open, no
  record is appended for it, the balance is not updated by it, it is excluded from the
  statistics of completed trades, and it is surfaced to the caller as unresolved rather
  than silently dropped.

  The last part fails. \<^verbatim>\<open>run_backtest\<close> returns nothing and leaves to its caller only the
  trades of the logger; \<^verbatim>\<open>trade_is_open\<close> is a local variable. Two runs over series that
  differ in one close, one ending with a position open and the other flat, hand the
  caller the same trades.
\<close>

theorem unresolved_position_not_surfaced:
  "run_backtest (sample_frame 95 110) [] = run_backtest (sample_frame 95 100) [] \<and>
   trade_is_open (loop (sample_frame 95 110) (initial_engine [])) \<and>
   \<not> trade_is_open (loop (sample_frame 95 100) (initial_engine []))"
  by (simp add: run_backtest_def loop_sample_open loop_sample_flat engine_202_def)

text \<open>
  Claim C9, amended. When the engine, flat at a cursor inside the series, finds a setup
  that passes the distance and size gates, and no candle after the cursor fulfils an
  exit condition of the position, then the loop ends with the cursor at the end of the
  series and \<^verbatim>\<open>trade_is_open\<close> still true; no record is appended to the logger and the
  account is unchanged, so the position is absent from the trades on which the
  statistics are computed. Nothing reports the open position to the caller.
\<close>

theorem unresolved_position_left_open:
  assumes "cursor s < length df" and "\<not> trade_is_open s" and "in_session (df ! cursor s)"
    and "detect df (cursor s) = Some (tt, entry, sl, sty, trig)"
    and "\<not> \<bar>entry - sl\<bar> \<le> 0.0001"
    and "0 < get_position_size (acct s) 1 entry sl"
    and "\<forall>m. cursor s < m \<and> m < length df \<longrightarrow>
           check_exit tt sl (target_price tt entry sl) (df ! m) = None"
  shows "trades (loop df s) = trades s \<and> acct (loop df s) = acct s \<and>
     trade_is_open (loop df s) \<and> cursor (loop df s) = length df"
proof -
  from assms(7) have "exit_scan df tt sl (target_price tt entry sl) (cursor s + 1) = None"
    by (intro exit_scan_NoneI) simp
  with assms(2-6) have st: "step df s = s\<lparr>cursor := length df, trade_is_open := True\<rparr>"
    by (simp add: step_def Let_def target_price_def)
  from assms(1) have "loop df s = loop df (step df s)"
    by (simp add: loop.simps [of df s])
  also have "\<dots> = s\<lparr>cursor := length df, trade_is_open := True\<rparr>"
    by (simp add: st loop.simps [of df "s\<lparr>cursor := length df, trade_is_open := True\<rparr>"])
  finally show ?thesis by simp
qed

theorem unresolved_position_left_open_witness:
  "cursor (engine_202 []) < length (sample_frame 95 110) \<and>
   \<not> trade_is_open (engine_202 []) \<and>
   detect (sample_frame 95 110) (cursor (engine_202 []))
     = Some (Buy, 110, 95, ''MSS - Bullish'', Break_of_LH 100) \<and>
   0 < get_position_size (acct (engine_202 [])) 1 110 95 \<and>
   trades (loop (sample_frame 95 110) (engine_202 [])) = trades (engine_202 []) \<and>
   acct (loop (sample_frame 95 110) (engine_202 [])) = acct (engine_202 []) \<and>
   trade_is_open (loop (sample_frame 95 110) (engine_202 [])) \<and>
   cursor (loop (sample_frame 95 110) (engine_202 [])) = 207"
proof -
  have h1: "cursor (engine_202 []) < length (sample_frame 95 110)"
    by (simp add: cursor_engine_202 sample_frame_length)
  have h2: "\<not> trade_is_open (engine_202 [])"
    by (simp add: engine_202_def)
  have h3: "in_session (sample_frame 95 110 ! cursor (engine_202 []))"
    by (simp add: cursor_engine_202 sample_frame_in_session)
  have h4: "detect (sample_frame 95 110) (cursor (engine_202 []))
     = Some (Buy, 110, 95, ''MSS - Bullish'', Break_of_LH 100)"
    by (simp add: cursor_engine_202 detect_sample_202)
  have h5: "\<not> \<bar>(110::real) - 95\<bar> \<le> 0.0001"
    by simp
  have h6: "0 < get_position_size (acct (engine_202 [])) 1 110 95"
    by (simp add: engine_202_def get_position_size_def)
  have tp: "target_price Buy 110 95 = 140"
    by (simp add: target_price_def)
  have h7: "\<forall>m. cursor (engine_202 []) < m \<and> m < length (sample_frame 95 110) \<longrightarrow>
      check_exit Buy 95 (target_price Buy 110 95) (sample_frame 95 110 ! m) = None"
    using exit_scan_None [OF exit_scan_sample_203 [of 95 110]]
    by (simp add: cursor_engine_202 tp)
  from unresolved_position_left_open [OF h1 h2 h3 h4 h5 h6 h7] h1 h2 h4 h6
  show ?thesis by (simp add: sample_frame_length)
qed

section \<open>Swing points and the decision candle\<close>


















section \<open>Re-entry after an exit\<close>





end
